theory Spec2Isabelle
  imports Complex_Main "HOL-Library.Sublist" "HOL-Library.AList" "HOL-Library.Multiset"
begin

section \<open>The debate scoring engine of debateAnalyzer.ts\<close>

text \<open>
  Conventions of the embedding.
  \<^item> A JavaScript number is an exact rational (\<open>rat\<close>): every finite double is one.
    The rounding of IEEE arithmetic, \<open>NaN\<close> and the infinities are not represented.
  \<^item> A JavaScript string is a \<open>string\<close>: its code units are the characters below 256
    (Latin-1). Text beyond that range is not represented.
  \<^item> An exception is a value of the type \<open>error\<close>; a function that may throw returns
    \<open>error + 'a\<close>.
  \<^item> A plain object used as a dictionary is the list of its own enumerable properties,
    in the order in which \<open>Object.entries\<close> lists them.
\<close>

subsection \<open>Strings: \<open>toLowerCase\<close>, \<open>includes\<close>, \<open>split(/\\s+/)\<close>\<close>

definition code_unit :: "char \<Rightarrow> int" where
  "code_unit c = of_char c"

text \<open>\<open>String.prototype.toLowerCase\<close> on Latin-1: A-Z and the accented capitals
  U+00C0..U+00DE (without the multiplication sign U+00D7) move up by 32.\<close>

definition lower_char :: "char \<Rightarrow> char" where
  "lower_char c =
     (let n = code_unit c
      in if (65 \<le> n \<and> n \<le> 90) \<or> (192 \<le> n \<and> n \<le> 222 \<and> n \<noteq> 215)
         then char_of (n + 32) else c)"

definition toLowerCase :: "string \<Rightarrow> string" where
  "toLowerCase s = map lower_char s"

text \<open>The class \<open>\\s\<close> of a JavaScript regular expression, below 256: tab, line feed,
  vertical tab, form feed, carriage return, space and the no-break space.\<close>

definition is_space :: "char \<Rightarrow> bool" where
  "is_space c = (code_unit c \<in> {9, 10, 11, 12, 13, 32, 160})"

text \<open>\<open>text.includes(pat)\<close>: \<open>pat\<close> occurs in \<open>text\<close> as a contiguous substring.\<close>

fun str_includes :: "string \<Rightarrow> string \<Rightarrow> bool" where
  "str_includes [] pat = (pat = [])"
| "str_includes (c # cs) pat = (prefix pat (c # cs) \<or> str_includes cs pat)"

text \<open>\<open>s.split(/\\s+/)\<close>: the pieces of \<open>s\<close> between maximal runs of white space. The
  empty string gives one empty piece; white space at the start or at the end of \<open>s\<close>
  gives an empty first or last piece.\<close>

fun split_ws :: "string \<Rightarrow> string list" where
  "split_ws [] = [[]]"
| "split_ws (c # cs) =
     (if is_space c
      then (case cs of
              d # ds \<Rightarrow> if is_space d then split_ws cs else [] # split_ws cs
            | [] \<Rightarrow> [] # split_ws cs)
      else (case split_ws cs of
              w # ws \<Rightarrow> (c # w) # ws
            | [] \<Rightarrow> [[c]]))"

text \<open>Decimal rendering of a natural number, as a template literal prints it.\<close>

fun decimal :: "nat \<Rightarrow> string" where
  "decimal n =
     (if n < 10 then [char_of (48 + n)]
      else decimal (n div 10) @ [char_of (48 + n mod 10)])"

declare decimal.simps [simp del]

subsection \<open>The heuristic scorer\<close>

definition evidenceIndicators :: "string list" where
  "evidenceIndicators =
     [''according to'', ''research shows'', ''studies indicate'', ''data suggests'',
      ''statistics show'', ''evidence shows'', ''proven'', ''demonstrated'',
      ''example'', ''for instance'', ''case study'', ''survey'', ''poll'']"

definition detectEvidence :: "string \<Rightarrow> bool" where
  "detectEvidence txt =
     (let lowerText = toLowerCase txt
      in list_ex (\<lambda>indicator. str_includes lowerText indicator) evidenceIndicators)"

definition structureIndicators :: "string list" where
  "structureIndicators =
     [''first'', ''second'', ''third'', ''furthermore'', ''moreover'', ''additionally'',
      ''however'', ''therefore'', ''consequently'', ''in conclusion'', ''to summarize'']"

definition detectStructure :: "string \<Rightarrow> bool" where
  "detectStructure txt =
     (let lowerText = toLowerCase txt
      in list_ex (\<lambda>indicator. str_includes lowerText indicator) structureIndicators)"

definition calculateRelevance :: "string \<Rightarrow> string \<Rightarrow> rat" where
  "calculateRelevance txt topic =
     (let topicWords = split_ws (toLowerCase topic);
          textWords = split_ws (toLowerCase txt);
          matches = filter (\<lambda>word.
                      list_ex (\<lambda>textWord. str_includes textWord word \<or> str_includes word textWord)
                        textWords) topicWords;
          relevanceRatio = of_nat (length matches) / of_nat (length topicWords)
      in min 10 (max 5 (relevanceRatio * 10 + 5)))"

subsection \<open>JavaScript values and plain objects\<close>

text \<open>The values that \<open>JSON.parse\<close> builds and that the scorer's object literals are
  made of. \<open>JObj\<close> holds the own properties of an object in enumeration order, with
  distinct keys.\<close>

datatype json =
    JNull
  | JBool bool
  | JNum rat
  | JStr string
  | JArr "json list"
  | JObj "(string \<times> json) list"

datatype error =
    JudgeFailure string
  | NoArguments
  | NoJsonFound
  | SyntaxError
  | TypeError
  | MissingScore string
  | InvalidScore string string
  | InvalidFormat error
  | FailedToAnalyze error

text \<open>An array index is the canonical decimal form of an integer below \<open>2^32 - 1\<close>.
  An object lists its array-index keys first, in ascending numeric order, and then its
  other string keys in the order of their creation.\<close>

definition index_value :: "string \<Rightarrow> int" where
  "index_value k = foldl (\<lambda>n c. 10 * n + (code_unit c - 48)) 0 k"

definition is_array_index :: "string \<Rightarrow> bool" where
  "is_array_index k =
     (k \<noteq> [] \<and> list_all (\<lambda>c. 48 \<le> code_unit c \<and> code_unit c \<le> 57) k
      \<and> (hd k = CHR ''0'' \<longrightarrow> k = ''0'') \<and> index_value k < 4294967295)"

fun insert_index :: "string \<Rightarrow> 'v \<Rightarrow> (string \<times> 'v) list \<Rightarrow> (string \<times> 'v) list" where
  "insert_index k v [] = [(k, v)]"
| "insert_index k v ((k', v') # rest) =
     (if is_array_index k' \<and> index_value k' < index_value k
      then (k', v') # insert_index k v rest
      else (k, v) # (k', v') # rest)"

text \<open>The assignment \<open>obj[k] = v\<close> on an object created by the literal \<open>{}\<close>, where
  \<open>v\<close> is an object. The key \<open>__proto__\<close> is an accessor of \<open>Object.prototype\<close>:
  assigning an object to it replaces the prototype of \<open>obj\<close> and creates no own
  property. Any other key is created (an array index at its numeric position, another
  key at the end) or, when it exists, overwritten in place.\<close>

definition js_set :: "string \<Rightarrow> 'v \<Rightarrow> (string \<times> 'v) list \<Rightarrow> (string \<times> 'v) list" where
  "js_set k v obj =
     (if k = ''__proto__'' then obj
      else if is_array_index k \<and> k \<notin> fst ` set obj then insert_index k v obj
      else AList.update k v obj)"

text \<open>The own property \<open>k\<close> of a value: a key of an object, an element or the length
  of an array, a character or the length of a string.\<close>

fun own_property :: "json \<Rightarrow> string \<Rightarrow> json option" where
  "own_property (JObj kvs) k = map_of kvs k"
| "own_property (JArr xs) k =
     (if is_array_index k \<and> index_value k < int (length xs)
      then Some (xs ! nat (index_value k))
      else if k = ''length'' then Some (JNum (of_nat (length xs)))
      else None)"
| "own_property (JStr s) k =
     (if is_array_index k \<and> index_value k < int (length s)
      then Some (JStr [s ! nat (index_value k)])
      else if k = ''length'' then Some (JNum (of_nat (length s)))
      else None)"
| "own_property _ k = None"

text \<open>A property read \<open>v.k\<close> where \<open>k\<close> is one of the names this program chooses
  itself (\<open>scores\<close>, \<open>consensusStatement\<close>, the rubric fields, \<open>reasoning\<close>): no
  built-in prototype defines them, so the read gives the own property or
  \<open>undefined\<close> (\<open>None\<close>); on \<open>null\<close> it throws.\<close>

definition get_property :: "json \<Rightarrow> string \<Rightarrow> error + json option" where
  "get_property v k = (if v = JNull then Inl TypeError else Inr (own_property v k))"

text \<open>The read succeeds and \<open>typeof v.k\<close> is \<open>'number'\<close>.\<close>

definition number_field :: "json \<Rightarrow> string \<Rightarrow> rat option" where
  "number_field v k = (case own_property v k of Some (JNum x) \<Rightarrow> Some x | _ \<Rightarrow> None)"

text \<open>\<open>Object.entries(v)\<close>.\<close>

fun object_entries :: "json \<Rightarrow> error + (string \<times> json) list" where
  "object_entries JNull = Inl TypeError"
| "object_entries (JObj kvs) = Inr kvs"
| "object_entries (JArr xs) = Inr (zip (map decimal [0..<length xs]) xs)"
| "object_entries (JStr s) = Inr (zip (map decimal [0..<length s]) (map (\<lambda>c. JStr [c]) s))"
| "object_entries _ = Inr []"

subsection \<open>Sessions and \<open>performFallbackAnalysis\<close>\<close>

record Argument =
  arg_id :: string
  userId :: string
  userName :: string
  arg_topic :: string
  arg_text :: string
  timestamp :: nat

record DebateSession =
  session_id :: string
  session_topic :: string
  arguments :: "Argument list"
  createdAt :: nat
  session_processedAt :: "nat option"

text \<open>The body of the loop of \<open>performFallbackAnalysis\<close>: the score object of one
  argument.\<close>

definition fallbackScore :: "string \<Rightarrow> Argument \<Rightarrow> json" where
  "fallbackScore topic arg =
     (let wordCount = length (split_ws (arg_text arg));
          hasEvidence = detectEvidence (arg_text arg);
          hasStructure = detectStructure (arg_text arg);
          clarity = min 10 (max 5 (if hasStructure then 8 else 6));
          logic = min 10 (max 4 (if wordCount > 50 then 7 else 5));
          evidence = min 10 (max 3 (if hasEvidence then 8 else 4));
          relevance = min 10 (max 6 (calculateRelevance (arg_text arg) topic))
      in JObj [(''clarity'', JNum clarity),
               (''logic'', JNum logic),
               (''evidence'', JNum evidence),
               (''relevance'', JNum relevance),
               (''reasoning'', JStr (''Fallback scoring: ''
                  @ (if hasStructure then ''Well-structured'' else ''Basic structure'') @ '', ''
                  @ (if hasEvidence then ''Contains evidence'' else ''Limited evidence'') @ '', ''
                  @ decimal wordCount @ '' words''))])"

definition fallbackScores :: "DebateSession \<Rightarrow> (string \<times> json) list" where
  "fallbackScores session =
     foldl (\<lambda>scores arg. js_set (userId arg) (fallbackScore (session_topic session) arg) scores)
       [] (arguments session)"

definition performFallbackAnalysis :: "DebateSession \<Rightarrow> json" where
  "performFallbackAnalysis session =
     (let scores = fallbackScores session;
          consensusStatement = ''Fallback analysis: '' @ decimal (length (arguments session))
            @ '' arguments analyzed using basic heuristics. Results may vary from AI analysis.''
      in JObj [(''scores'', JObj scores), (''consensusStatement'', JStr consensusStatement)])"

subsection \<open>\<open>calculateFinalScores\<close>\<close>

record Subscores =
  clarity :: rat
  logic :: rat
  evidence :: rat
  relevance :: rat

record ScoredResult =
  result_userName :: string
  scores :: Subscores
  finalScore :: rat
  reasoning :: "json option"

definition scoringWeights :: Subscores where
  "scoringWeights = \<lparr>clarity = 25 / 100, logic = 30 / 100, evidence = 25 / 100, relevance = 20 / 100\<rparr>"

text \<open>\<open>Math.round\<close>: the nearest integer, a half going up.\<close>

definition Math_round :: "rat \<Rightarrow> rat" where
  "Math_round x = of_int \<lfloor>x + 1 / 2\<rfloor>"

text \<open>What a call can come to. \<open>Unmodelled\<close> marks the runs this development says
  nothing about: the judge's payload holds an entry with a rubric field that is missing
  or not a number, so that JavaScript's arithmetic would coerce it, possibly to \<open>NaN\<close>.\<close>

datatype 'a outcome = Returns 'a | Throws error | Unmodelled

text \<open>The body of the loop of \<open>calculateFinalScores\<close>. Reading a field of \<open>null\<close>
  throws, also after an earlier entry has left the modelled range.\<close>

definition scoreEntry ::
  "(string \<times> ScoredResult) list outcome \<Rightarrow> string \<times> json \<Rightarrow> (string \<times> ScoredResult) list outcome"
where
  "scoreEntry acc entry =
     (case acc of
        Throws e \<Rightarrow> Throws e
      | _ \<Rightarrow>
        (let userId = fst entry; score = snd entry
         in if score = JNull then Throws TypeError
            else
              (case (acc, number_field score ''clarity'', number_field score ''logic'',
                     number_field score ''evidence'', number_field score ''relevance'') of
                 (Returns results, Some c, Some l, Some e, Some r) \<Rightarrow>
                   (let finalScore =
                          (c * clarity scoringWeights) + (l * logic scoringWeights)
                          + (e * evidence scoringWeights) + (r * relevance scoringWeights)
                    in Returns (js_set userId
                         \<lparr>result_userName = [],
                          scores = \<lparr>clarity = Math_round (c * 10) / 10,
                                    logic = Math_round (l * 10) / 10,
                                    evidence = Math_round (e * 10) / 10,
                                    relevance = Math_round (r * 10) / 10\<rparr>,
                          finalScore = Math_round (finalScore * 100) / 100,
                          reasoning = own_property score ''reasoning''\<rparr> results))
               | _ \<Rightarrow> Unmodelled)))"

text \<open>The argument is the value of \<open>aiResponse.scores\<close>, \<open>None\<close> when it is
  \<open>undefined\<close>.\<close>

definition calculateFinalScores :: "json option \<Rightarrow> (string \<times> ScoredResult) list outcome" where
  "calculateFinalScores scoresValue =
     (case scoresValue of
        None \<Rightarrow> Throws TypeError
      | Some v \<Rightarrow>
        (case object_entries v of
           Inl e \<Rightarrow> Throws e
         | Inr entries \<Rightarrow> foldl scoreEntry (Returns []) entries))"

subsection \<open>\<open>determineWinner\<close>\<close>

record Winner =
  winner_userId :: string
  winner_userName :: string
  winner_finalScore :: rat

record Verdict =
  verdict_winner :: "Winner option"
  verdict_isTie :: bool

text \<open>\<open>entries.sort(([, a], [, b]) => b.finalScore - a.finalScore)\<close>: the stable sort
  by descending final score.\<close>

definition sort_entries :: "(string \<times> ScoredResult) list \<Rightarrow> (string \<times> ScoredResult) list" where
  "sort_entries entries = sort_key (\<lambda>entry. - finalScore (snd entry)) entries"

definition determineWinner :: "(string \<times> ScoredResult) list \<Rightarrow> Verdict" where
  "determineWinner entries =
     (if length entries = 0 then \<lparr>verdict_winner = None, verdict_isTie = False\<rparr>
      else if length entries = 1 then
        (let (userId, result) = entries ! 0
         in \<lparr>verdict_winner = Some \<lparr>winner_userId = userId,
                                     winner_userName = result_userName result,
                                     winner_finalScore = finalScore result\<rparr>,
             verdict_isTie = False\<rparr>)
      else
        (let sorted = sort_entries entries;
             (winnerUserId, winnerResult) = sorted ! 0;
             (secondUserId, secondResult) = sorted ! 1;
             isTie = (\<bar>finalScore winnerResult - finalScore secondResult\<bar> < 1 / 10)
         in \<lparr>verdict_winner =
               (if isTie then None
                else Some \<lparr>winner_userId = winnerUserId,
                           winner_userName = result_userName winnerResult,
                           winner_finalScore = finalScore winnerResult\<rparr>),
             verdict_isTie = isTie\<rparr>))"

subsection \<open>\<open>parseAIResponse\<close>\<close>

text \<open>What the program takes from outside: the judge (\<open>runtime.generateText\<close> on the
  prompt built from the session), \<open>JSON.parse\<close> (\<open>None\<close> for a syntax error), the
  names that a value inherits from its built-in prototype (\<open>constructor\<close>,
  \<open>toString\<close>, ...) and the clock.\<close>

record Env =
  generateText :: "DebateSession \<Rightarrow> error + string"
  JSON_parse :: "string \<Rightarrow> json option"
  inherits :: "json \<Rightarrow> string \<Rightarrow> bool"
  Date_now :: nat

text \<open>\<open>response.match(/\\{[\\s\\S]*\\}/)\<close>: from the first opening brace to the last
  closing brace after it.\<close>

definition json_match :: "string \<Rightarrow> string option" where
  "json_match response =
     (let from_open = dropWhile (\<lambda>c. c \<noteq> CHR ''{'') response;
          matched = rev (dropWhile (\<lambda>c. c \<noteq> CHR ''}'') (rev from_open))
      in if matched = [] then None else Some matched)"

text \<open>The result of \<open>parsed.scores[userId]\<close>: \<open>undefined\<close>, an own property, or a
  member of a built-in prototype (a function or a prototype object: truthy, not a number,
  and without rubric fields).\<close>

datatype jsval = Undefined | Own json | Inherited

definition get_member :: "(json \<Rightarrow> string \<Rightarrow> bool) \<Rightarrow> json option \<Rightarrow> string \<Rightarrow> error + jsval" where
  "get_member inh base k =
     (case base of
        None \<Rightarrow> Inl TypeError
      | Some v \<Rightarrow>
        if v = JNull then Inl TypeError
        else (case own_property v k of
                Some x \<Rightarrow> Inr (Own x)
              | None \<Rightarrow> Inr (if inh v k then Inherited else Undefined)))"

fun truthy :: "jsval \<Rightarrow> bool" where
  "truthy Undefined = False"
| "truthy Inherited = True"
| "truthy (Own JNull) = False"
| "truthy (Own (JBool b)) = b"
| "truthy (Own (JNum x)) = (x \<noteq> 0)"
| "truthy (Own (JStr s)) = (s \<noteq> [])"
| "truthy (Own _) = True"

text \<open>\<open>typeof score.k !== 'number' || score.k < 0 || score.k > 10\<close>.\<close>

definition invalid_score :: "jsval \<Rightarrow> string \<Rightarrow> bool" where
  "invalid_score score k =
     (case score of
        Own v \<Rightarrow> (case number_field v k of None \<Rightarrow> True | Some x \<Rightarrow> x < 0 \<or> x > 10)
      | _ \<Rightarrow> True)"

text \<open>The body of the validation loop, for one argument.\<close>

definition checkArgument :: "(json \<Rightarrow> string \<Rightarrow> bool) \<Rightarrow> json \<Rightarrow> Argument \<Rightarrow> error + unit" where
  "checkArgument inh parsed arg =
     (case get_property parsed ''scores'' of
        Inl e \<Rightarrow> Inl e
      | Inr container \<Rightarrow>
        (case get_member inh container (userId arg) of
           Inl e \<Rightarrow> Inl e
         | Inr score \<Rightarrow>
           if \<not> truthy score then Inl (MissingScore (userId arg))
           else if invalid_score score ''clarity'' then Inl (InvalidScore ''clarity'' (userId arg))
           else if invalid_score score ''logic'' then Inl (InvalidScore ''logic'' (userId arg))
           else if invalid_score score ''evidence'' then Inl (InvalidScore ''evidence'' (userId arg))
           else if invalid_score score ''relevance'' then Inl (InvalidScore ''relevance'' (userId arg))
           else Inr ()))"

fun checkArguments :: "(json \<Rightarrow> string \<Rightarrow> bool) \<Rightarrow> json \<Rightarrow> Argument list \<Rightarrow> error + unit" where
  "checkArguments inh parsed [] = Inr ()"
| "checkArguments inh parsed (arg # args) =
     (case checkArgument inh parsed arg of
        Inl e \<Rightarrow> Inl e
      | Inr _ \<Rightarrow> checkArguments inh parsed args)"

text \<open>The \<open>try\<close> block of \<open>parseAIResponse\<close>, and the function with its \<open>catch\<close>,
  which wraps every error.\<close>

definition parseAIResponse_try :: "Env \<Rightarrow> string \<Rightarrow> DebateSession \<Rightarrow> error + json" where
  "parseAIResponse_try env response session =
     (case json_match response of
        None \<Rightarrow> Inl NoJsonFound
      | Some jsonMatch \<Rightarrow>
        (case JSON_parse env jsonMatch of
           None \<Rightarrow> Inl SyntaxError
         | Some parsed \<Rightarrow>
           (case checkArguments (inherits env) parsed (arguments session) of
              Inl e \<Rightarrow> Inl e
            | Inr _ \<Rightarrow> Inr parsed)))"

definition parseAIResponse :: "Env \<Rightarrow> string \<Rightarrow> DebateSession \<Rightarrow> error + json" where
  "parseAIResponse env response session =
     (case parseAIResponse_try env response session of
        Inl e \<Rightarrow> Inl (InvalidFormat e)
      | Inr parsed \<Rightarrow> Inr parsed)"

subsection \<open>\<open>performAIAnalysis\<close> and \<open>analyzeDebate\<close>\<close>

definition performAIAnalysis :: "Env \<Rightarrow> DebateSession \<Rightarrow> error + json" where
  "performAIAnalysis env session =
     (case generateText env session of
        Inl e \<Rightarrow> Inl e
      | Inr response \<Rightarrow> parseAIResponse env response session)"

record DebateResult =
  sessionId :: string
  topic :: string
  results :: "(string \<times> ScoredResult) list"
  winner :: "Winner option"
  isTie :: bool
  consensusStatement :: "json option"
  processedAt :: nat

definition analyzeDebate :: "Env \<Rightarrow> DebateSession \<Rightarrow> DebateResult outcome" where
  "analyzeDebate env session =
     (if length (arguments session) = 0 then Throws (FailedToAnalyze NoArguments)
      else
        (let aiResponse =
               (case performAIAnalysis env session of
                  Inr response \<Rightarrow> response
                | Inl e \<Rightarrow> performFallbackAnalysis session)
         in case get_property aiResponse ''scores'' of
              Inl e \<Rightarrow> Throws (FailedToAnalyze e)
            | Inr scoresValue \<Rightarrow>
              (case calculateFinalScores scoresValue of
                 Throws e \<Rightarrow> Throws (FailedToAnalyze e)
               | Unmodelled \<Rightarrow> Unmodelled
               | Returns results' \<Rightarrow>
                 (let winner' = determineWinner results'
                  in case get_property aiResponse ''consensusStatement'' of
                       Inl e \<Rightarrow> Throws (FailedToAnalyze e)
                     | Inr statement \<Rightarrow>
                       Returns \<lparr>sessionId = session_id session,
                                topic = session_topic session,
                                results = results',
                                winner = verdict_winner winner',
                                isTie = verdict_isTie winner',
                                consensusStatement = statement,
                                processedAt = Date_now env\<rparr>))))"

subsection \<open>Notions of the specification\<close>

text \<open>These four definitions follow the words of the specification, not the code; the
  theorems below compare the code with them.

  A RawScore whose four sub-scores are numbers in \<open>[0,10]\<close>.\<close>

definition valid_rawscore :: "json \<Rightarrow> bool" where
  "valid_rawscore v =
     list_all (\<lambda>k. case number_field v k of None \<Rightarrow> False | Some x \<Rightarrow> 0 \<le> x \<and> x \<le> 10)
       [''clarity'', ''logic'', ''evidence'', ''relevance'']"

text \<open>\<open>0.25 clarity + 0.30 logic + 0.25 evidence + 0.20 relevance\<close>.\<close>

definition weighted_sum :: "json \<Rightarrow> rat" where
  "weighted_sum v =
     25 / 100 * the (number_field v ''clarity'') + 30 / 100 * the (number_field v ''logic'')
     + 25 / 100 * the (number_field v ''evidence'') + 20 / 100 * the (number_field v ''relevance'')"

text \<open>\<open>r\<close> is \<open>x\<close> rounded at the second decimal place, a half going up: \<open>r\<close> is a
  multiple of \<open>0.01\<close> with \<open>x - 0.005 < r \<le> x + 0.005\<close>.\<close>

definition is_round2 :: "rat \<Rightarrow> rat \<Rightarrow> bool" where
  "is_round2 x r = ((\<exists>k::int. r = of_int k / 100) \<and> x - 1 / 200 < r \<and> r \<le> x + 1 / 200)"

text \<open>The number of lower-case white-space-delimited topic words that are a substring of
  some argument word or contain some argument word as a substring, divided by the number
  of topic words.\<close>

definition relevanceRatio :: "string \<Rightarrow> string \<Rightarrow> rat" where
  "relevanceRatio txt tpc =
     (let topicWords = split_ws (toLowerCase tpc);
          argumentWords = split_ws (toLowerCase txt)
      in of_nat (length (filter (\<lambda>w. \<exists>a \<in> set argumentWords. sublist w a \<or> sublist a w) topicWords))
         / of_nat (length topicWords))"

text \<open>The entry of the judge's payload for a participant id: the own property of that
  name of the payload's \<open>scores\<close>, when both exist.\<close>

definition payload_entry :: "json \<Rightarrow> string \<Rightarrow> json option" where
  "payload_entry parsed uid =
     (case own_property parsed ''scores'' of None \<Rightarrow> None | Some container \<Rightarrow> own_property container uid)"

text \<open>An argument violates the checks when its participant id is absent from the payload's
  scores or one of its four sub-scores is not a number in \<open>[0,10]\<close>.\<close>

definition violates :: "json \<Rightarrow> Argument \<Rightarrow> bool" where
  "violates parsed arg =
     (case payload_entry parsed (userId arg) of None \<Rightarrow> True | Some v \<Rightarrow> \<not> valid_rawscore v)"

text \<open>The first criterion, in the order clarity, logic, evidence, relevance, whose value is
  not a number in \<open>[0,10]\<close>.\<close>

definition first_invalid :: "json \<Rightarrow> string option" where
  "first_invalid v =
     find (\<lambda>k. case number_field v k of None \<Rightarrow> True | Some x \<Rightarrow> x < 0 \<or> 10 < x)
       [''clarity'', ''logic'', ''evidence'', ''relevance'']"

subsection \<open>Sample data\<close>

definition sample_argument :: "string \<Rightarrow> string \<Rightarrow> string \<Rightarrow> Argument" where
  "sample_argument uid name txt =
     \<lparr>arg_id = ''arg-'' @ uid, userId = uid, userName = name,
      arg_topic = ''Should AI replace human teachers?'', arg_text = txt, timestamp = 0\<rparr>"

definition sample_session :: "Argument list \<Rightarrow> DebateSession" where
  "sample_session args =
     \<lparr>session_id = ''session-1'', session_topic = ''Should AI replace human teachers?'',
      arguments = args, createdAt = 0, session_processedAt = None\<rparr>"

definition half_up_scores :: "(string \<times> json) list" where
  "half_up_scores =
     [(''user1'', JObj [(''clarity'', JNum (1 / 10)), (''logic'', JNum 0), (''evidence'', JNum 0),
                       (''relevance'', JNum 0), (''reasoning'', JStr ''weak'')])]"

definition sample_result :: "rat \<Rightarrow> ScoredResult" where
  "sample_result x =
     \<lparr>result_userName = [],
      scores = \<lparr>clarity = 6, logic = 5, evidence = 4, relevance = 10\<rparr>,
      finalScore = x, reasoning = None\<rparr>"

definition judge_json :: string where
  \<open>judge_json = ''{"scores": {"user1": {"clarity": 8, "logic": 7, "evidence": 6, "relevance": 9, "reasoning": "Clear."}, "ghost": null}, "consensusStatement": "Teachers matter."}''\<close>

definition judge_payload :: json where
  "judge_payload =
     JObj [(''scores'',
            JObj [(''user1'', JObj [(''clarity'', JNum 8), (''logic'', JNum 7), (''evidence'', JNum 6),
                                   (''relevance'', JNum 9), (''reasoning'', JStr ''Clear.'')]),
                  (''ghost'', JNull)]),
           (''consensusStatement'', JStr ''Teachers matter.'')]"

definition sample_env :: "error + string \<Rightarrow> Env" where
  "sample_env reply =
     \<lparr>generateText = (\<lambda>session. reply),
      JSON_parse = (\<lambda>t. if t = judge_json then Some judge_payload else None),
      inherits = (\<lambda>v k. k \<in> set [''constructor'', ''hasOwnProperty'', ''isPrototypeOf'',
                                     ''propertyIsEnumerable'', ''toLocaleString'', ''toString'',
                                     ''valueOf'', ''__proto__'']),
      Date_now = 1000\<rparr>"

definition scenario_long_text :: string where
  "scenario_long_text = ''Studies show that AI can help a lot. However, it is not so easy to do it all in a day. We can try to use it for math and art, and so on. It can be of use to us if we go on and see how it is to be used by all of us.''"

definition scenario_short_text :: string where
  "scenario_short_text = ''Teachers give students the human touch that no machine can offer.''"

section \<open>Properties\<close>

subsection \<open>Strings\<close>

lemma str_includes_sublist: "str_includes t p \<longleftrightarrow> sublist p t"
  by (induction t) (auto simp: sublist_Cons_right)

lemma split_ws_nonempty: "split_ws s \<noteq> []"
proof (induction s)
  case Nil
  show ?case by simp
next
  case (Cons c cs)
  then show ?case
    by (subst split_ws.simps(2)) (auto split: list.splits simp del: split_ws.simps)
qed

lemma decimal_1: "decimal (Suc 0) = ''1''"
  by code_simp

subsection \<open>Assignment to a plain object\<close>

lemma set_insert_index: "set (insert_index k v obj) = insert (k, v) (set obj)"
  by (induction obj) (auto split: if_splits)

lemma map_of_insert_index:
  "k \<notin> fst ` set obj \<Longrightarrow> map_of (insert_index k v obj) = (map_of obj)(k \<mapsto> v)"
  by (induction obj) (auto simp: fun_upd_twist)

lemma distinct_insert_index:
  "k \<notin> fst ` set obj \<Longrightarrow> distinct (map fst obj) \<Longrightarrow> distinct (map fst (insert_index k v obj))"
  by (induction obj) (auto simp: set_insert_index)

lemma set_update_subset: "set (AList.update k v obj) \<subseteq> insert (k, v) (set obj)"
  by (induction obj) auto

lemma map_of_js_set:
  "map_of (js_set k v obj) = (if k = ''__proto__'' then map_of obj else (map_of obj)(k \<mapsto> v))"
  by (simp add: js_set_def map_of_insert_index AList.update_conv')

lemma keys_js_set:
  "fst ` set (js_set k v obj) = (if k = ''__proto__'' then fst ` set obj else insert k (fst ` set obj))"
  by (simp add: js_set_def set_insert_index AList.dom_update)

lemma distinct_js_set:
  "distinct (map fst obj) \<Longrightarrow> distinct (map fst (js_set k v obj))"
  by (simp add: js_set_def distinct_insert_index AList.distinct_update)

lemma set_js_set_subset: "set (js_set k v obj) \<subseteq> insert (k, v) (set obj)"
  using set_update_subset[of k v obj] by (auto simp: js_set_def set_insert_index)

subsection \<open>The heuristic scorer: which participants it scores\<close>

lemma fallbackScores_keys:
  "fst ` set (fallbackScores s) = userId ` set (arguments s) - {''__proto__''}"
proof -
  have "fst ` set (foldl (\<lambda>scores arg. js_set (userId arg) (fallbackScore tpc arg) scores) [] args)
        = userId ` set args - {''__proto__''}" for tpc args
    by (induction args rule: rev_induct) (auto simp: keys_js_set)
  then show ?thesis by (simp add: fallbackScores_def)
qed

lemma fallbackScores_distinct: "distinct (map fst (fallbackScores s))"
proof -
  have "distinct (map fst (foldl (\<lambda>scores arg. js_set (userId arg) (fallbackScore tpc arg) scores) [] args))"
    for tpc args
    by (induction args rule: rev_induct) (auto simp: distinct_js_set)
  then show ?thesis by (simp add: fallbackScores_def)
qed

lemma fallbackScores_lookup:
  "map_of (fallbackScores s) uid =
     (if uid = ''__proto__'' \<or> uid \<notin> userId ` set (arguments s) then None
      else Some (fallbackScore (session_topic s) (last (filter (\<lambda>a. userId a = uid) (arguments s)))))"
proof -
  have "map_of (foldl (\<lambda>scores arg. js_set (userId arg) (fallbackScore tpc arg) scores) [] args) uid =
     (if uid = ''__proto__'' \<or> uid \<notin> userId ` set args then None
      else Some (fallbackScore tpc (last (filter (\<lambda>a. userId a = uid) args))))" for tpc args
    by (induction args rule: rev_induct) (auto simp: map_of_js_set)
  then show ?thesis by (simp add: fallbackScores_def)
qed

subsection \<open>The heuristic scorer: the sub-scores\<close>

lemma fallbackScore_fields:
  "number_field (fallbackScore tpc a) ''clarity'' = Some (if detectStructure (arg_text a) then 8 else 6)"
  "number_field (fallbackScore tpc a) ''logic'' = Some (if 50 < length (split_ws (arg_text a)) then 7 else 5)"
  "number_field (fallbackScore tpc a) ''evidence'' = Some (if detectEvidence (arg_text a) then 8 else 4)"
  "number_field (fallbackScore tpc a) ''relevance'' = Some (min 10 (max 6 (calculateRelevance (arg_text a) tpc)))"
  by (simp_all add: fallbackScore_def number_field_def Let_def)


lemma calculateRelevance_empty_text: "calculateRelevance [] tpc = 10"
proof -
  have "filter (\<lambda>word. list_ex (\<lambda>textWord. str_includes textWord word \<or> str_includes word textWord) [[]]) ws
        = ws" for ws
    by (induction ws) (auto simp: str_includes_sublist)
  moreover have "length (split_ws (toLowerCase tpc)) > 0"
    using split_ws_nonempty by simp
  ultimately show ?thesis
    by (simp add: calculateRelevance_def toLowerCase_def Let_def)
qed

lemma detect_empty: "\<not> detectEvidence []" "\<not> detectStructure []"
  by (simp_all add: detectEvidence_def detectStructure_def toLowerCase_def
        evidenceIndicators_def structureIndicators_def)

subsection \<open>The aggregator\<close>

lemma Math_round_is_round2: "is_round2 x (Math_round (x * 100) / 100)"
proof -
  let ?k = "\<lfloor>x * 100 + 1 / 2\<rfloor>"
  have "of_int ?k \<le> x * 100 + 1 / 2" and "x * 100 + 1 / 2 < of_int ?k + 1"
    by linarith+
  then show ?thesis
    unfolding is_round2_def Math_round_def by (auto simp: field_simps)
qed

lemma Math_round_range:
  assumes "0 \<le> x" "x \<le> 10"
  shows "0 \<le> Math_round (x * 100) / 100 \<and> Math_round (x * 100) / 100 \<le> 10"
proof -
  have "0 \<le> \<lfloor>x * 100 + 1 / 2\<rfloor>" using assms by simp
  moreover have "\<lfloor>x * 100 + 1 / 2\<rfloor> \<le> 1000"
  proof -
    have "x * 100 + 1 / 2 < 1001" using assms by simp
    then have "\<lfloor>x * 100 + 1 / 2\<rfloor> < 1001" by (simp add: floor_less_iff)
    then show ?thesis by simp
  qed
  ultimately show ?thesis
    unfolding Math_round_def by (simp add: field_simps)
qed

lemma number_field_JNull: "number_field JNull k = None"
  by (simp add: number_field_def)

lemma valid_rawscore_fields:
  assumes "valid_rawscore v"
  obtains c l e r where
    "number_field v ''clarity'' = Some c" "number_field v ''logic'' = Some l"
    "number_field v ''evidence'' = Some e" "number_field v ''relevance'' = Some r"
    "0 \<le> c" "c \<le> 10" "0 \<le> l" "l \<le> 10" "0 \<le> e" "e \<le> 10" "0 \<le> r" "r \<le> 10"
    "v \<noteq> JNull"
  using assms unfolding valid_rawscore_def
  by (cases "v = JNull") (auto split: option.splits simp: number_field_JNull)

lemma scoreEntry_valid:
  assumes "valid_rawscore v"
  shows "\<exists>r. scoreEntry (Returns acc) (uid, v) = Returns (js_set uid r acc)
             \<and> is_round2 (weighted_sum v) (finalScore r)
             \<and> 0 \<le> finalScore r \<and> finalScore r \<le> 10"
proof -
  from assms obtain c l e r where f:
    "number_field v ''clarity'' = Some c" "number_field v ''logic'' = Some l"
    "number_field v ''evidence'' = Some e" "number_field v ''relevance'' = Some r"
    "0 \<le> c" "c \<le> 10" "0 \<le> l" "l \<le> 10" "0 \<le> e" "e \<le> 10" "0 \<le> r" "r \<le> 10"
    "v \<noteq> JNull"
    by (rule valid_rawscore_fields)
  let ?w = "c * (25 / 100) + l * (30 / 100) + e * (25 / 100) + r * (20 / 100)"
  have w: "weighted_sum v = ?w" by (simp add: weighted_sum_def f)
  have "0 \<le> ?w" "?w \<le> 10" using f by auto
  then have rng: "0 \<le> Math_round (?w * 100) / 100 \<and> Math_round (?w * 100) / 100 \<le> 10"
    by (rule Math_round_range)
  have "scoreEntry (Returns acc) (uid, v) = Returns (js_set uid
          \<lparr>result_userName = [],
           scores = \<lparr>clarity = Math_round (c * 10) / 10, logic = Math_round (l * 10) / 10,
                     evidence = Math_round (e * 10) / 10, relevance = Math_round (r * 10) / 10\<rparr>,
           finalScore = Math_round (?w * 100) / 100,
           reasoning = own_property v ''reasoning''\<rparr> acc)"
    by (simp add: scoreEntry_def f scoringWeights_def Let_def)
  then show ?thesis
    using rng Math_round_is_round2[of ?w] w by auto
qed

lemma foldl_scoreEntry_valid:
  assumes "\<forall>(uid, v) \<in> set entries. valid_rawscore v"
  shows "\<exists>res. foldl scoreEntry (Returns acc) entries = Returns res
          \<and> (\<forall>(uid, r) \<in> set res. (uid, r) \<in> set acc \<or>
                (\<exists>v. (uid, v) \<in> set entries \<and> is_round2 (weighted_sum v) (finalScore r)
                     \<and> 0 \<le> finalScore r \<and> finalScore r \<le> 10))
          \<and> fst ` set res = fst ` set acc \<union> (fst ` set entries - {''__proto__''})"
  using assms
proof (induction entries arbitrary: acc)
  case Nil
  then show ?case by auto
next
  case (Cons entry entries)
  obtain uid v where entry: "entry = (uid, v)" by (cases entry)
  with Cons.prems have "valid_rawscore v" by simp
  then obtain r where r: "scoreEntry (Returns acc) (uid, v) = Returns (js_set uid r acc)"
    "is_round2 (weighted_sum v) (finalScore r)" "0 \<le> finalScore r" "finalScore r \<le> 10"
    using scoreEntry_valid by blast
  from Cons.prems have "\<forall>(uid, v) \<in> set entries. valid_rawscore v" by simp
  from Cons.IH[OF this, of "js_set uid r acc"] obtain res where res:
    "foldl scoreEntry (Returns (js_set uid r acc)) entries = Returns res"
    "\<forall>(u, r') \<in> set res. (u, r') \<in> set (js_set uid r acc) \<or>
                (\<exists>v. (u, v) \<in> set entries \<and> is_round2 (weighted_sum v) (finalScore r')
                     \<and> 0 \<le> finalScore r' \<and> finalScore r' \<le> 10)"
    "fst ` set res = fst ` set (js_set uid r acc) \<union> (fst ` set entries - {''__proto__''})"
    by blast
  have 1: "foldl scoreEntry (Returns acc) (entry # entries) = Returns res"
    by (simp add: entry r(1) res(1))
  have 2: "(u, r') \<in> set acc \<or>
                (\<exists>v. (u, v) \<in> set (entry # entries) \<and> is_round2 (weighted_sum v) (finalScore r')
                     \<and> 0 \<le> finalScore r' \<and> finalScore r' \<le> 10)" if "(u, r') \<in> set res" for u r'
  proof -
    from res(2) that consider "(u, r') \<in> set (js_set uid r acc)"
      | "\<exists>v. (u, v) \<in> set entries \<and> is_round2 (weighted_sum v) (finalScore r')
                     \<and> 0 \<le> finalScore r' \<and> finalScore r' \<le> 10" by blast
    then show ?thesis
    proof cases
      case 1
      then have "(u, r') = (uid, r) \<or> (u, r') \<in> set acc"
        using set_js_set_subset[of uid r acc] by blast
      then show ?thesis using r entry by auto
    next
      case 2
      then show ?thesis by auto
    qed
  qed
  have 3: "fst ` set res = fst ` set acc \<union> (fst ` set (entry # entries) - {''__proto__''})"
    unfolding res(3) keys_js_set entry by auto
  show ?case using 1 2 3 by blast
qed

lemma scoreEntry_Returns:
  assumes "scoreEntry acc entry = Returns res"
  shows "\<exists>acc' r. acc = Returns acc' \<and> res = js_set (fst entry) r acc'"
  using assms unfolding scoreEntry_def Let_def
  by (cases acc) (auto split: if_splits option.splits)

lemma foldl_scoreEntry_distinct:
  "foldl scoreEntry (Returns acc) entries = Returns res \<Longrightarrow> distinct (map fst acc)
   \<Longrightarrow> distinct (map fst res)"
proof (induction entries arbitrary: res rule: rev_induct)
  case Nil
  then show ?case by simp
next
  case (snoc entry entries)
  from snoc.prems(1) have "scoreEntry (foldl scoreEntry (Returns acc) entries) entry = Returns res"
    by simp
  then obtain acc' r where "foldl scoreEntry (Returns acc) entries = Returns acc'"
    and "res = js_set (fst entry) r acc'"
    using scoreEntry_Returns by blast
  with snoc.IH snoc.prems(2) show ?case
    by (simp add: distinct_js_set)
qed

subsection \<open>The winner resolver\<close>

lemma sort_entries_sorted:
  "sorted_wrt (\<lambda>a b. finalScore (snd b) \<le> finalScore (snd a)) (sort_entries entries)"
proof -
  have "sorted (map (\<lambda>entry. - finalScore (snd entry)) (sort_entries entries))"
    unfolding sort_entries_def by (rule sorted_sort_key)
  then show ?thesis
    by (simp add: sorted_map)
qed

lemma sort_entries_mset: "mset (sort_entries entries) = mset entries"
  by (simp add: sort_entries_def)

lemma sort_entries_stable:
  "filter (\<lambda>entry. finalScore (snd entry) = x) (sort_entries entries)
   = filter (\<lambda>entry. finalScore (snd entry) = x) entries"
  using sort_key_stable[of "\<lambda>entry. - finalScore (snd entry)" "- x" entries]
  by (simp add: sort_entries_def)

lemma sort_entries_top:
  assumes "e \<in> set entries"
  shows "finalScore (snd e) \<le> finalScore (snd (sort_entries entries ! 0))"
proof -
  have "e \<in> set (sort_entries entries)"
    using assms by (simp add: sort_entries_def)
  then obtain i where i: "i < length (sort_entries entries)" "sort_entries entries ! i = e"
    by (auto simp: in_set_conv_nth)
  show ?thesis
  proof (cases i)
    case 0
    with i show ?thesis by simp
  next
    case (Suc j)
    with i sort_entries_sorted[of entries] show ?thesis
      by (auto simp: sorted_wrt_iff_nth_less)
  qed
qed

lemma determineWinner_sorted:
  assumes "2 \<le> length entries"
  shows "determineWinner entries =
     \<lparr>verdict_winner =
        (if \<bar>finalScore (snd (sort_entries entries ! 0)) - finalScore (snd (sort_entries entries ! 1))\<bar> < 1 / 10
         then None
         else Some \<lparr>winner_userId = fst (sort_entries entries ! 0),
                    winner_userName = result_userName (snd (sort_entries entries ! 0)),
                    winner_finalScore = finalScore (snd (sort_entries entries ! 0))\<rparr>),
      verdict_isTie =
        (\<bar>finalScore (snd (sort_entries entries ! 0)) - finalScore (snd (sort_entries entries ! 1))\<bar> < 1 / 10)\<rparr>"
proof -
  have "length entries \<noteq> 0" "length entries \<noteq> 1" using assms by auto
  then show ?thesis
    by (simp add: determineWinner_def Let_def split_beta)
qed

lemma determineWinner_margin:
  assumes mem: "(u, r) \<in> set entries"
      and dist: "distinct (map fst entries)"
      and gap: "\<And>u' r'. (u', r') \<in> set entries \<Longrightarrow> u' \<noteq> u \<Longrightarrow> finalScore r' + 1 / 10 \<le> finalScore r"
  shows "determineWinner entries
         = \<lparr>verdict_winner = Some \<lparr>winner_userId = u, winner_userName = result_userName r,
                                    winner_finalScore = finalScore r\<rparr>,
            verdict_isTie = False\<rparr>"
proof (cases "length entries = 1")
  case True
  then obtain e where "entries = [e]" by (cases entries) auto
  with mem have "entries = [(u, r)]" by simp
  then show ?thesis by (simp add: determineWinner_def)
next
  case False
  with mem have len: "2 \<le> length entries" by (cases entries) (auto simp: Suc_le_eq)
  define s where "s = sort_entries entries"
  have ms: "mset s = mset entries" unfolding s_def by (rule sort_entries_mset)
  then have sets: "set s = set entries" by (rule mset_eq_setD)
  have lens: "length s = length entries" by (simp add: s_def sort_entries_def)
  have "mset (map fst s) = mset (map fst entries)" using ms by simp
  then have dists: "distinct (map fst s)" using dist mset_eq_imp_distinct_iff by blast
  have l0: "0 < length s" and l1: "1 < length s"
    using len lens by linarith+
  obtain u0 r0 where s0: "s ! 0 = (u0, r0)" by (cases "s ! 0")
  obtain u1 r1 where s1: "s ! 1 = (u1, r1)" by (cases "s ! 1")
  have in0: "(u0, r0) \<in> set entries"
    using nth_mem[OF l0] sets s0 by simp
  have in1: "(u1, r1) \<in> set entries"
    using nth_mem[OF l1] sets s1 by simp
  have top_le: "finalScore r \<le> finalScore r0"
    using sort_entries_top[OF mem] s0 by (simp add: s_def)
  have u0: "u0 = u"
  proof (rule ccontr)
    assume "u0 \<noteq> u"
    then have "finalScore r0 + 1 / 10 \<le> finalScore r" using gap[OF in0] by simp
    with top_le show False by simp
  qed
  have r0: "r0 = r"
    using eq_key_imp_eq_value[OF dist in0[unfolded u0] mem] .
  have "(map fst s ! 1 = map fst s ! 0) = ((1::nat) = 0)"
    by (rule nth_eq_iff_index_eq[OF dists]) (use l0 l1 in auto)
  moreover have "map fst s ! 1 = fst (s ! 1)" and "map fst s ! 0 = fst (s ! 0)"
    using nth_map[OF l1, of fst] nth_map[OF l0, of fst] by blast+
  ultimately have "u1 \<noteq> u" using s0 s1 u0 by simp
  then have margin: "finalScore r1 + 1 / 10 \<le> finalScore r" using gap[OF in1] by simp
  have "\<not> \<bar>finalScore r0 - finalScore r1\<bar> < 1 / 10"
    using margin r0 by simp
  then show ?thesis
    using determineWinner_sorted[OF len] s0 s1 by (simp add: s_def[symmetric] u0 r0)
qed

subsection \<open>The validator\<close>

lemma own_property_JNull: "own_property JNull k = None"
  by simp

lemma falsy_not_valid: "\<not> truthy (Own v) \<Longrightarrow> \<not> valid_rawscore v"
  by (cases v) (auto simp: valid_rawscore_def number_field_def is_array_index_def)

lemma invalid_score_Own:
  "invalid_score (Own v) k = (case number_field v k of None \<Rightarrow> True | Some x \<Rightarrow> x < 0 \<or> 10 < x)"
  by (simp add: invalid_score_def)

lemma valid_rawscore_iff:
  "valid_rawscore v \<longleftrightarrow>
     \<not> invalid_score (Own v) ''clarity'' \<and> \<not> invalid_score (Own v) ''logic''
     \<and> \<not> invalid_score (Own v) ''evidence'' \<and> \<not> invalid_score (Own v) ''relevance''"
  by (auto simp: valid_rawscore_def invalid_score_Own split: option.splits)

lemma first_invalid_eq:
  "first_invalid v =
     (if invalid_score (Own v) ''clarity'' then Some ''clarity''
      else if invalid_score (Own v) ''logic'' then Some ''logic''
      else if invalid_score (Own v) ''evidence'' then Some ''evidence''
      else if invalid_score (Own v) ''relevance'' then Some ''relevance''
      else None)"
  by (simp add: first_invalid_def invalid_score_Own)

text \<open>What the loop body does, by the shape of the payload.\<close>

lemma checkArgument_absent:
  assumes "payload_entry parsed (userId arg) = None"
  shows "checkArgument inh parsed arg = Inl TypeError
       \<or> checkArgument inh parsed arg = Inl (MissingScore (userId arg))
       \<or> checkArgument inh parsed arg = Inl (InvalidScore ''clarity'' (userId arg))"
  using assms
  by (auto simp: checkArgument_def get_property_def get_member_def payload_entry_def invalid_score_def
           split: option.splits)

lemma checkArgument_present:
  assumes "payload_entry parsed (userId arg) = Some v"
  shows "checkArgument inh parsed arg =
     (if \<not> truthy (Own v) then Inl (MissingScore (userId arg))
      else case first_invalid v of
             Some k \<Rightarrow> Inl (InvalidScore k (userId arg))
           | None \<Rightarrow> Inr ())"
proof -
  from assms obtain container where c: "own_property parsed ''scores'' = Some container"
    and e: "own_property container (userId arg) = Some v"
    by (auto simp: payload_entry_def split: option.splits)
  from c have "parsed \<noteq> JNull" by auto
  moreover from e have "container \<noteq> JNull" by auto
  ultimately show ?thesis
    by (simp add: checkArgument_def get_property_def get_member_def c e first_invalid_eq)
qed

lemma checkArgument_ok_iff:
  "checkArgument inh parsed arg = Inr () \<longleftrightarrow> \<not> violates parsed arg"
proof (cases "payload_entry parsed (userId arg)")
  case None
  then show ?thesis
    using checkArgument_absent[OF None, of inh] by (auto simp: violates_def)
next
  case (Some v)
  show ?thesis
    using falsy_not_valid[of v]
    by (auto simp: checkArgument_present[OF Some] violates_def Some first_invalid_eq valid_rawscore_iff)
qed

lemma checkArguments_ok_iff:
  "checkArguments inh parsed args = Inr () \<longleftrightarrow> (\<forall>a \<in> set args. \<not> violates parsed a)"
proof (induction args)
  case Nil
  show ?case by simp
next
  case (Cons a args)
  show ?case
  proof (cases "checkArgument inh parsed a")
    case (Inl e)
    then have "violates parsed a" using checkArgument_ok_iff[of inh parsed a] by auto
    with Inl show ?thesis by simp
  next
    case (Inr u)
    then have "\<not> violates parsed a" using checkArgument_ok_iff[of inh parsed a] by simp
    with Inr Cons.IH show ?thesis by simp
  qed
qed

lemma checkArguments_first:
  assumes "\<forall>b \<in> set pre. \<not> violates parsed b" and "violates parsed a"
  shows "checkArguments inh parsed (pre @ a # post) = checkArgument inh parsed a"
  using assms(1)
proof (induction pre)
  case Nil
  from assms(2) have "checkArgument inh parsed a \<noteq> Inr ()"
    by (simp add: checkArgument_ok_iff)
  then show ?case by (cases "checkArgument inh parsed a") auto
next
  case (Cons b pre)
  then have "checkArgument inh parsed b = Inr ()" by (simp add: checkArgument_ok_iff)
  with Cons show ?case by simp
qed

lemma dropWhile_open:
  "\<exists>q. dropWhile (\<lambda>c. c \<noteq> x) (pre @ x # tail) = x # q \<and> set tail \<subseteq> set q"
  by (induction pre) auto

lemma json_match_None_iff:
  "json_match response = None
   \<longleftrightarrow> \<not> (\<exists>pre mid post. response = pre @ CHR ''{'' # mid @ CHR ''}'' # post)"
proof
  assume none: "json_match response = None"
  show "\<not> (\<exists>pre mid post. response = pre @ CHR ''{'' # mid @ CHR ''}'' # post)"
  proof
    assume "\<exists>pre mid post. response = pre @ CHR ''{'' # mid @ CHR ''}'' # post"
    then obtain pre mid post where r: "response = pre @ CHR ''{'' # mid @ CHR ''}'' # post" by blast
    obtain q where q: "dropWhile (\<lambda>c. c \<noteq> CHR ''{'') response = CHR ''{'' # q"
      and sub: "set (mid @ CHR ''}'' # post) \<subseteq> set q"
      using dropWhile_open[of "CHR ''{''" pre "mid @ CHR ''}'' # post"] unfolding r by blast
    from none have "\<forall>x \<in> set q. x \<noteq> CHR ''}''"
      unfolding json_match_def Let_def q by (simp split: if_splits)
    with sub show False by auto
  qed
next
  assume no_span: "\<not> (\<exists>pre mid post. response = pre @ CHR ''{'' # mid @ CHR ''}'' # post)"
  show "json_match response = None"
  proof (rule ccontr)
    let ?f = "dropWhile (\<lambda>c. c \<noteq> CHR ''{'') response"
    assume "json_match response \<noteq> None"
    then have ne: "dropWhile (\<lambda>c. c \<noteq> CHR ''}'') (rev ?f) \<noteq> []"
      unfolding json_match_def Let_def by (simp split: if_splits)
    then have fne: "?f \<noteq> []" by (cases ?f) simp_all
    then have "hd ?f = CHR ''{''" using hd_dropWhile[of "\<lambda>c. c \<noteq> CHR ''{''" response] by blast
    with fne obtain q where f: "?f = CHR ''{'' # q" by (cases ?f) simp_all
    from ne have "\<exists>c \<in> set (rev ?f). c = CHR ''}''"
      unfolding dropWhile_eq_Nil_conv by blast
    then have "CHR ''}'' \<in> set q" unfolding f by auto
    then obtain mid post where "q = mid @ CHR ''}'' # post" by (meson split_list)
    with f have "?f = CHR ''{'' # mid @ CHR ''}'' # post" by simp
    then have "response = takeWhile (\<lambda>c. c \<noteq> CHR ''{'') response @ CHR ''{'' # mid @ CHR ''}'' # post"
      using takeWhile_dropWhile_id[of "\<lambda>c. c \<noteq> CHR ''{''" response] by metis
    with no_span show False by blast
  qed
qed

subsection \<open>The heuristic path of the orchestrator\<close>

lemma fallbackScore_valid: "valid_rawscore (fallbackScore tpc a)"
  by (simp add: valid_rawscore_def fallbackScore_fields min_def max_def)

lemma fallbackScores_members:
  assumes "(uid, v) \<in> set (fallbackScores s)"
  shows "\<exists>a \<in> set (arguments s). userId a = uid \<and> v = fallbackScore (session_topic s) a
           \<and> a = last (filter (\<lambda>a. userId a = uid) (arguments s))"
proof -
  from assms have m: "map_of (fallbackScores s) uid = Some v"
    using fallbackScores_distinct by simp
  then have in_ids: "uid \<in> userId ` set (arguments s)"
    and v: "v = fallbackScore (session_topic s) (last (filter (\<lambda>a. userId a = uid) (arguments s)))"
    by (simp_all add: fallbackScores_lookup split: if_splits)
  let ?f = "filter (\<lambda>a. userId a = uid) (arguments s)"
  from in_ids have "?f \<noteq> []" by (auto simp: filter_empty_conv)
  then have "last ?f \<in> set ?f" by (rule last_in_set)
  then show ?thesis using v by auto
qed

lemma calculateFinalScores_fallback:
  "\<exists>res. calculateFinalScores (Some (JObj (fallbackScores s))) = Returns res
     \<and> distinct (map fst res)
     \<and> fst ` set res = userId ` set (arguments s) - {''__proto__''}
     \<and> (\<forall>(uid, r) \<in> set res.
           is_round2 (weighted_sum (fallbackScore (session_topic s)
                        (last (filter (\<lambda>a. userId a = uid) (arguments s))))) (finalScore r))"
proof -
  have valid: "\<forall>(uid, v) \<in> set (fallbackScores s). valid_rawscore v"
    using fallbackScores_members fallbackScore_valid by fastforce
  have "\<exists>res. foldl scoreEntry (Returns []) (fallbackScores s) = Returns res
          \<and> (\<forall>(uid, r) \<in> set res.
                \<exists>v. (uid, v) \<in> set (fallbackScores s) \<and> is_round2 (weighted_sum v) (finalScore r))
          \<and> fst ` set res = fst ` set (fallbackScores s) - {''__proto__''}"
    using foldl_scoreEntry_valid[OF valid, of "[]"] by fastforce
  then obtain res where
    res: "foldl scoreEntry (Returns []) (fallbackScores s) = Returns res"
    and each: "\<forall>(uid, r) \<in> set res.
                \<exists>v. (uid, v) \<in> set (fallbackScores s) \<and> is_round2 (weighted_sum v) (finalScore r)"
    and keys: "fst ` set res = fst ` set (fallbackScores s) - {''__proto__''}"
    by blast
  have 1: "calculateFinalScores (Some (JObj (fallbackScores s))) = Returns res"
    by (simp add: calculateFinalScores_def res)
  have 2: "distinct (map fst res)"
    using foldl_scoreEntry_distinct[OF res] by simp
  have 3: "fst ` set res = userId ` set (arguments s) - {''__proto__''}"
    using keys by (auto simp: fallbackScores_keys)
  have 4: "is_round2 (weighted_sum (fallbackScore (session_topic s)
                        (last (filter (\<lambda>a. userId a = uid) (arguments s))))) (finalScore r)"
    if "(uid, r) \<in> set res" for uid r
  proof -
    from each that obtain v where v: "(uid, v) \<in> set (fallbackScores s)"
      and r: "is_round2 (weighted_sum v) (finalScore r)" by auto
    from fallbackScores_members[OF v]
    have "v = fallbackScore (session_topic s) (last (filter (\<lambda>a. userId a = uid) (arguments s)))"
      by auto
    with r show ?thesis by simp
  qed
  show ?thesis using 1 2 3 4 by blast
qed

lemma analyzeDebate_fallback:
  assumes "arguments s \<noteq> []" and "performAIAnalysis env s = Inl e"
      and "calculateFinalScores (Some (JObj (fallbackScores s))) = Returns res"
  shows "analyzeDebate env s =
     Returns \<lparr>sessionId = session_id s, topic = session_topic s, results = res,
              winner = verdict_winner (determineWinner res),
              isTie = verdict_isTie (determineWinner res),
              consensusStatement = Some (JStr (''Fallback analysis: '' @ decimal (length (arguments s))
                @ '' arguments analyzed using basic heuristics. Results may vary from AI analysis.'')),
              processedAt = Date_now env\<rparr>"
  using assms
  by (simp add: analyzeDebate_def performFallbackAnalysis_def get_property_def Let_def)

lemma weighted_sum_fallbackScore:
  "weighted_sum (fallbackScore tpc a) =
     25 / 100 * (if detectStructure (arg_text a) then 8 else 6)
     + 30 / 100 * (if 50 < length (split_ws (arg_text a)) then 7 else 5)
     + 25 / 100 * (if detectEvidence (arg_text a) then 8 else 4)
     + 20 / 100 * min 10 (max 6 (calculateRelevance (arg_text a) tpc))"
  by (simp add: weighted_sum_def fallbackScore_fields)

lemma however_is_structure:
  "str_includes (toLowerCase txt) ''however'' \<Longrightarrow> detectStructure txt"
  by (simp add: detectStructure_def structureIndicators_def)

subsection \<open>Claims about the winner resolver\<close>

text \<open>
  Claim C2. For every results mapping, the verdict of \<open>determineWinner\<close> has a null
  winner if and only if it is a tie or the mapping has no participant; and when the
  mapping has exactly one participant, the verdict is not a tie and the winner is that
  participant, with that participant's final score.
\<close>

theorem determineWinner_null_iff:
  "(verdict_winner (determineWinner entries) = None
      \<longleftrightarrow> verdict_isTie (determineWinner entries) \<or> length entries = 0)
   \<and> (\<forall>uid r. entries = [(uid, r)] \<longrightarrow>
         \<not> verdict_isTie (determineWinner entries)
         \<and> verdict_winner (determineWinner entries)
             = Some \<lparr>winner_userId = uid, winner_userName = result_userName r,
                     winner_finalScore = finalScore r\<rparr>)"
  by (auto simp: determineWinner_def Let_def split: prod.splits)

theorem determineWinner_null_iff_witness:
  "\<not> verdict_isTie (determineWinner [(''user1'', sample_result 6)])
   \<and> verdict_winner (determineWinner [(''user1'', sample_result 6)])
       = Some \<lparr>winner_userId = ''user1'', winner_userName = [], winner_finalScore = 6\<rparr>"
  using determineWinner_null_iff [of "[(''user1'', sample_result 6)]"]
  by (simp add: sample_result_def)



subsection \<open>Claims about the aggregator\<close>



lemma calculateFinalScores_half_up:
  "calculateFinalScores (Some (JObj half_up_scores))
   = Returns [(''user1'', \<lparr>result_userName = [],
                 scores = \<lparr>clarity = 1 / 10, logic = 0, evidence = 0, relevance = 0\<rparr>,
                 finalScore = 3 / 100, reasoning = Some (JStr ''weak'')\<rparr>)]"
  by code_simp

subsection \<open>Claims about the heuristic scorer\<close>



text \<open>
  Claim C9, what the code does. For an argument whose text is the empty string the
  scorer does not fail and gives clarity 6, logic 5 and evidence 4, but relevance 10,
  the top of the clamp range and not its bottom: the single empty word of the empty text
  is a substring of every topic word.
\<close>

theorem fallbackScore_empty_text:
  "fallbackScore tpc (a\<lparr>arg_text := []\<rparr>)
   = JObj [(''clarity'', JNum 6), (''logic'', JNum 5), (''evidence'', JNum 4),
           (''relevance'', JNum 10),
           (''reasoning'', JStr ''Fallback scoring: Basic structure, Limited evidence, 1 words'')]"
  by (simp add: fallbackScore_def detect_empty calculateRelevance_empty_text decimal_1)

text \<open>
  Claim C8, what the code does. For a session whose only participant has the id
  \<open>__proto__\<close>, the scorer's mapping has no entry at all: the participant is dropped.
\<close>

theorem fallbackScores_drops_proto:
  "fallbackScores (sample_session [sample_argument ''__proto__'' ''Mallory'' ''AI tutors never tire.''])
   = []
   \<and> userId ` set (arguments (sample_session [sample_argument ''__proto__'' ''Mallory'' ''AI tutors never tire.'']))
     = {''__proto__''}"
  by (simp add: fallbackScores_def sample_session_def sample_argument_def js_set_def)

text \<open>
  Claim C10. The keys of the heuristic scorer's mapping are distinct, every entry holds the
  score computed from the last argument of the session with that participant id, and every
  participant id other than \<open>__proto__\<close> has an entry. So when two or more arguments
  share a participant id, the single entry of that id comes from the last of them.
\<close>

theorem fallbackScores_last_argument:
  "distinct (map fst (fallbackScores s))
   \<and> (\<forall>uid v. (uid, v) \<in> set (fallbackScores s) \<longrightarrow>
         v = fallbackScore (session_topic s) (last (filter (\<lambda>a. userId a = uid) (arguments s))))
   \<and> (\<forall>a \<in> set (arguments s). userId a \<noteq> ''__proto__'' \<longrightarrow> userId a \<in> fst ` set (fallbackScores s))"
proof (intro conjI allI impI ballI)
  show "distinct (map fst (fallbackScores s))" by (rule fallbackScores_distinct)
next
  fix uid v assume "(uid, v) \<in> set (fallbackScores s)"
  then have "map_of (fallbackScores s) uid = Some v"
    using fallbackScores_distinct by simp
  then show "v = fallbackScore (session_topic s) (last (filter (\<lambda>a. userId a = uid) (arguments s)))"
    by (simp add: fallbackScores_lookup split: if_splits)
next
  fix a assume "a \<in> set (arguments s)" "userId a \<noteq> ''__proto__''"
  then show "userId a \<in> fst ` set (fallbackScores s)"
    by (simp add: fallbackScores_keys)
qed

theorem fallbackScores_last_argument_witness:
  "fallbackScores (sample_session
       [sample_argument ''user1'' ''Alice'' ''First, AI tutors never tire.'',
        sample_argument ''user1'' ''Alice'' ''Teachers matter.''])
   = [(''user1'', fallbackScore ''Should AI replace human teachers?''
                    (sample_argument ''user1'' ''Alice'' ''Teachers matter.''))]"
  using fallbackScores_last_argument
    [of "sample_session
       [sample_argument ''user1'' ''Alice'' ''First, AI tutors never tire.'',
        sample_argument ''user1'' ''Alice'' ''Teachers matter.'']"]
  by (simp add: fallbackScores_def sample_session_def sample_argument_def js_set_def is_array_index_def code_unit_def)

subsection \<open>Claims about the response validator\<close>

text \<open>
  Claim C4. For every session and every raw judge text: when the text holds no opening
  brace followed by a closing brace, \<open>parseAIResponse\<close> fails with the no-JSON-found
  error; when \<open>JSON.parse\<close> rejects the matched span, it fails with the syntax error;
  and when the span parses, it fails if some argument of the session violates the checks
  (its participant id is absent from the payload's scores, or one of its clarity, logic,
  evidence, relevance values is not a number in \<open>[0,10]\<close>) and returns the payload
  otherwise. The failure is that of the first violating argument in argument order: for an
  absent id a failed property read, a missing score or an invalid clarity score of that
  participant; for a present entry a missing score when the entry is falsy, and otherwise
  the first invalid criterion in the order clarity, logic, evidence, relevance.
\<close>

theorem parseAIResponse_validates:
  "((\<not> (\<exists>pre mid post. response = pre @ CHR ''{'' # mid @ CHR ''}'' # post))
      \<longrightarrow> parseAIResponse env response s = Inl (InvalidFormat NoJsonFound))
   \<and> (\<forall>jsonMatch.
         json_match response = Some jsonMatch \<and> JSON_parse env jsonMatch = None \<longrightarrow>
           parseAIResponse env response s = Inl (InvalidFormat SyntaxError))
   \<and> (\<forall>jsonMatch parsed.
         json_match response = Some jsonMatch \<and> JSON_parse env jsonMatch = Some parsed \<longrightarrow>
           (if \<exists>a \<in> set (arguments s). violates parsed a
            then \<exists>e. parseAIResponse env response s = Inl (InvalidFormat e)
            else parseAIResponse env response s = Inr parsed)
         \<and> (\<forall>pre a post.
               arguments s = pre @ a # post \<and> (\<forall>b \<in> set pre. \<not> violates parsed b) \<and> violates parsed a \<longrightarrow>
                 (case payload_entry parsed (userId a) of
                    None \<Rightarrow>
                      parseAIResponse env response s \<in>
                        {Inl (InvalidFormat TypeError),
                         Inl (InvalidFormat (MissingScore (userId a))),
                         Inl (InvalidFormat (InvalidScore ''clarity'' (userId a)))}
                  | Some v \<Rightarrow>
                      parseAIResponse env response s =
                        (if \<not> truthy (Own v) then Inl (InvalidFormat (MissingScore (userId a)))
                         else Inl (InvalidFormat (InvalidScore (the (first_invalid v)) (userId a)))))))"
proof (intro conjI impI allI)
  assume "\<not> (\<exists>pre mid post. response = pre @ CHR ''{'' # mid @ CHR ''}'' # post)"
  then have "json_match response = None" by (simp add: json_match_None_iff)
  then show "parseAIResponse env response s = Inl (InvalidFormat NoJsonFound)"
    by (simp add: parseAIResponse_def parseAIResponse_try_def)
next
  fix jsonMatch
  assume "json_match response = Some jsonMatch \<and> JSON_parse env jsonMatch = None"
  then show "parseAIResponse env response s = Inl (InvalidFormat SyntaxError)"
    by (simp add: parseAIResponse_def parseAIResponse_try_def)
next
  fix jsonMatch parsed
  assume h: "json_match response = Some jsonMatch \<and> JSON_parse env jsonMatch = Some parsed"
  have p: "parseAIResponse env response s =
        (case checkArguments (inherits env) parsed (arguments s) of
           Inl e \<Rightarrow> Inl (InvalidFormat e) | Inr u \<Rightarrow> Inr parsed)"
    using h by (simp add: parseAIResponse_def parseAIResponse_try_def split: sum.splits)
  show "if \<exists>a \<in> set (arguments s). violates parsed a
        then \<exists>e. parseAIResponse env response s = Inl (InvalidFormat e)
        else parseAIResponse env response s = Inr parsed"
    using checkArguments_ok_iff[of "inherits env" parsed "arguments s"]
    by (cases "checkArguments (inherits env) parsed (arguments s)") (auto simp: p)
  fix pre a post
  assume v: "arguments s = pre @ a # post \<and> (\<forall>b \<in> set pre. \<not> violates parsed b) \<and> violates parsed a"
  then have c: "checkArguments (inherits env) parsed (arguments s) = checkArgument (inherits env) parsed a"
    using checkArguments_first[of pre parsed a "inherits env" post] by simp
  show "case payload_entry parsed (userId a) of
          None \<Rightarrow>
            parseAIResponse env response s \<in>
              {Inl (InvalidFormat TypeError),
               Inl (InvalidFormat (MissingScore (userId a))),
               Inl (InvalidFormat (InvalidScore ''clarity'' (userId a)))}
        | Some v \<Rightarrow>
            parseAIResponse env response s =
              (if \<not> truthy (Own v) then Inl (InvalidFormat (MissingScore (userId a)))
               else Inl (InvalidFormat (InvalidScore (the (first_invalid v)) (userId a))))"
  proof (cases "payload_entry parsed (userId a)")
    case None
    then show ?thesis
      using checkArgument_absent[OF None, of "inherits env"] by (auto simp: p c)
  next
    case (Some w)
    from v have "violates parsed a" by simp
    then have "\<not> valid_rawscore w" by (simp add: violates_def Some)
    then have "first_invalid w \<noteq> None"
      by (auto simp: first_invalid_eq valid_rawscore_iff)
    then show ?thesis
      by (auto simp: p c Some checkArgument_present[OF Some])
  qed
qed

theorem parseAIResponse_validates_witness:
  "parseAIResponse (sample_env (Inr ''I cannot judge this debate.'')) ''I cannot judge this debate.''
      (sample_session [sample_argument ''user1'' ''Alice'' ''Teachers matter.''])
     = Inl (InvalidFormat NoJsonFound)
   \<and> parseAIResponse (sample_env (Inr (''Verdict: '' @ judge_json @ '' Done.'')))
        (''Verdict: '' @ judge_json @ '' Done.'')
        (sample_session [sample_argument ''user1'' ''Alice'' ''Teachers matter.''])
     = Inr judge_payload
   \<and> parseAIResponse (sample_env (Inr (''Verdict: '' @ judge_json @ '' Done.'')))
        (''Verdict: '' @ judge_json @ '' Done.'')
        (sample_session [sample_argument ''user1'' ''Alice'' ''Teachers matter.'',
                         sample_argument ''ghost'' ''Bob'' ''Machines scale.''])
     = Inl (InvalidFormat (MissingScore ''ghost''))"
proof -
  let ?reply = "''Verdict: '' @ judge_json @ '' Done.''"
  let ?env = "sample_env (Inr ?reply)"
  let ?a1 = "sample_argument ''user1'' ''Alice'' ''Teachers matter.''"
  let ?a2 = "sample_argument ''ghost'' ''Bob'' ''Machines scale.''"
  have "json_match ''I cannot judge this debate.'' = None" by code_simp
  then have no_span:
    "\<not> (\<exists>pre mid post. ''I cannot judge this debate.'' = pre @ CHR ''{'' # mid @ CHR ''}'' # post)"
    using json_match_None_iff [of "''I cannot judge this debate.''"] by blast
  have m: "json_match ?reply = Some judge_json" by code_simp
  have p: "JSON_parse ?env judge_json = Some judge_payload" by (simp add: sample_env_def)
  have ok1: "\<not> violates judge_payload ?a1" by code_simp
  have bad2: "violates judge_payload ?a2" by code_simp
  have entry2: "payload_entry judge_payload (userId ?a2) = Some JNull" by code_simp
  have 1: "parseAIResponse (sample_env (Inr ''I cannot judge this debate.'')) ''I cannot judge this debate.''
      (sample_session [?a1]) = Inl (InvalidFormat NoJsonFound)"
    using parseAIResponse_validates
      [of "''I cannot judge this debate.''" "sample_env (Inr ''I cannot judge this debate.'')" "sample_session [?a1]"]
      no_span by blast
  have args1: "arguments (sample_session [?a1]) = [?a1]" by (simp add: sample_session_def)
  have 2: "parseAIResponse ?env ?reply (sample_session [?a1]) = Inr judge_payload"
    using parseAIResponse_validates [of ?reply ?env "sample_session [?a1]"] m p ok1 args1
    by simp
  have args2: "arguments (sample_session [?a1, ?a2]) = [?a1] @ ?a2 # []" by (simp add: sample_session_def)
  have 3: "parseAIResponse ?env ?reply (sample_session [?a1, ?a2]) = Inl (InvalidFormat (MissingScore ''ghost''))"
  proof -
    have "arguments (sample_session [?a1, ?a2]) = [?a1] @ ?a2 # []
          \<and> (\<forall>b \<in> set [?a1]. \<not> violates judge_payload b) \<and> violates judge_payload ?a2"
      using args2 ok1 bad2 by simp
    with parseAIResponse_validates [of ?reply ?env "sample_session [?a1, ?a2]"] m p
    have "case payload_entry judge_payload (userId ?a2) of
            None \<Rightarrow>
              parseAIResponse ?env ?reply (sample_session [?a1, ?a2]) \<in>
                {Inl (InvalidFormat TypeError),
                 Inl (InvalidFormat (MissingScore (userId ?a2))),
                 Inl (InvalidFormat (InvalidScore ''clarity'' (userId ?a2)))}
          | Some v \<Rightarrow>
              parseAIResponse ?env ?reply (sample_session [?a1, ?a2]) =
                (if \<not> truthy (Own v) then Inl (InvalidFormat (MissingScore (userId ?a2)))
                 else Inl (InvalidFormat (InvalidScore (the (first_invalid v)) (userId ?a2))))"
      by blast
    then show ?thesis
      by (simp add: entry2) (simp add: sample_argument_def)
  qed
  from 1 2 3 show ?thesis by simp
qed

subsection \<open>Claims about the orchestrator\<close>

text \<open>
  Claim C1, what the code does. A session with one argument, and a judge whose reply
  passes the validation but holds a surplus entry \<open>"ghost": null\<close>:
  \<open>calculateFinalScores\<close> reads a field of \<open>null\<close>, and \<open>analyzeDebate\<close> rethrows
  the error although the session has an argument.
\<close>

theorem analyzeDebate_throws_on_null_entry:
  "length (arguments (sample_session [sample_argument ''user1'' ''Alice'' ''Teachers matter.''])) = 1
   \<and> analyzeDebate (sample_env (Inr (''Verdict: '' @ judge_json @ '' Done.'')))
        (sample_session [sample_argument ''user1'' ''Alice'' ''Teachers matter.''])
       = Throws (FailedToAnalyze TypeError)"
  by code_simp

text \<open>
  The rest of that contract holds. A session without arguments makes \<open>analyzeDebate\<close>
  throw; with an argument, whenever the judge call throws or its reply fails parsing or
  validation, \<open>analyzeDebate\<close> returns a complete result built from the heuristic
  scorer's scores and consensus statement; and with an argument it throws only after a
  reply of the judge has passed the validation.
\<close>

theorem analyzeDebate_outcomes:
  "(arguments s = [] \<longrightarrow> analyzeDebate env s = Throws (FailedToAnalyze NoArguments))
   \<and> (arguments s \<noteq> [] \<and> (\<exists>e. performAIAnalysis env s = Inl e) \<longrightarrow>
        (\<exists>res. calculateFinalScores (Some (JObj (fallbackScores s))) = Returns res
           \<and> fst ` set res = userId ` set (arguments s) - {''__proto__''}
           \<and> analyzeDebate env s =
               Returns \<lparr>sessionId = session_id s, topic = session_topic s, results = res,
                        winner = verdict_winner (determineWinner res),
                        isTie = verdict_isTie (determineWinner res),
                        consensusStatement = Some (JStr (''Fallback analysis: ''
                          @ decimal (length (arguments s))
                          @ '' arguments analyzed using basic heuristics. Results may vary from AI analysis.'')),
                        processedAt = Date_now env\<rparr>))
   \<and> ((\<exists>e. performAIAnalysis env s = Inl e) \<longleftrightarrow>
        (\<exists>e. generateText env s = Inl e)
        \<or> (\<exists>response e. generateText env s = Inr response \<and> parseAIResponse env response s = Inl e))
   \<and> (\<forall>e. arguments s \<noteq> [] \<and> analyzeDebate env s = Throws e \<longrightarrow>
        (\<exists>payload. performAIAnalysis env s = Inr payload))"
proof (intro conjI impI allI)
  assume "arguments s = []"
  then show "analyzeDebate env s = Throws (FailedToAnalyze NoArguments)"
    by (simp add: analyzeDebate_def)
next
  assume a: "arguments s \<noteq> [] \<and> (\<exists>e. performAIAnalysis env s = Inl e)"
  then obtain e where e: "performAIAnalysis env s = Inl e" by blast
  obtain res where res: "calculateFinalScores (Some (JObj (fallbackScores s))) = Returns res"
    and keys: "fst ` set res = userId ` set (arguments s) - {''__proto__''}"
    using calculateFinalScores_fallback[of s] by blast
  from a have ne: "arguments s \<noteq> []" by simp
  show "\<exists>res. calculateFinalScores (Some (JObj (fallbackScores s))) = Returns res
           \<and> fst ` set res = userId ` set (arguments s) - {''__proto__''}
           \<and> analyzeDebate env s =
               Returns \<lparr>sessionId = session_id s, topic = session_topic s, results = res,
                        winner = verdict_winner (determineWinner res),
                        isTie = verdict_isTie (determineWinner res),
                        consensusStatement = Some (JStr (''Fallback analysis: ''
                          @ decimal (length (arguments s))
                          @ '' arguments analyzed using basic heuristics. Results may vary from AI analysis.'')),
                        processedAt = Date_now env\<rparr>"
    using res keys analyzeDebate_fallback[OF ne e res] by blast
next
  show "(\<exists>e. performAIAnalysis env s = Inl e) \<longleftrightarrow>
        (\<exists>e. generateText env s = Inl e)
        \<or> (\<exists>response e. generateText env s = Inr response \<and> parseAIResponse env response s = Inl e)"
    by (cases "generateText env s") (simp_all add: performAIAnalysis_def)
next
  fix e
  assume t: "arguments s \<noteq> [] \<and> analyzeDebate env s = Throws e"
  show "\<exists>payload. performAIAnalysis env s = Inr payload"
  proof (cases "performAIAnalysis env s")
    case (Inl e')
    obtain res where res: "calculateFinalScores (Some (JObj (fallbackScores s))) = Returns res"
      using calculateFinalScores_fallback[of s] by blast
    from t have ne: "arguments s \<noteq> []" by simp
    from analyzeDebate_fallback[OF ne Inl res] t show ?thesis by simp
  next
    case (Inr payload)
    then show ?thesis by blast
  qed
qed

theorem analyzeDebate_outcomes_witness:
  "analyzeDebate (sample_env (Inl (JudgeFailure ''quota exceeded''))) (sample_session [])
     = Throws (FailedToAnalyze NoArguments)
   \<and> (\<exists>res. fst ` set res = {''user1''}
         \<and> analyzeDebate (sample_env (Inl (JudgeFailure ''quota exceeded'')))
               (sample_session [sample_argument ''user1'' ''Alice'' ''Teachers matter.''])
             = Returns \<lparr>sessionId = ''session-1'', topic = ''Should AI replace human teachers?'',
                        results = res,
                        winner = verdict_winner (determineWinner res),
                        isTie = verdict_isTie (determineWinner res),
                        consensusStatement = Some (JStr ''Fallback analysis: 1 arguments analyzed using basic heuristics. Results may vary from AI analysis.''),
                        processedAt = 1000\<rparr>)"
proof -
  let ?env = "sample_env (Inl (JudgeFailure ''quota exceeded''))"
  let ?s = "sample_session [sample_argument ''user1'' ''Alice'' ''Teachers matter.'']"
  have 1: "analyzeDebate ?env (sample_session []) = Throws (FailedToAnalyze NoArguments)"
    using analyzeDebate_outcomes [of "sample_session []" ?env] by (simp add: sample_session_def)
  have down: "performAIAnalysis ?env ?s = Inl (JudgeFailure ''quota exceeded'')"
    by (simp add: performAIAnalysis_def sample_env_def)
  have ne: "arguments ?s \<noteq> []" by (simp add: sample_session_def)
  from analyzeDebate_outcomes [of ?s ?env] ne down
  obtain res where "fst ` set res = userId ` set (arguments ?s) - {''__proto__''}"
    and "analyzeDebate ?env ?s =
               Returns \<lparr>sessionId = session_id ?s, topic = session_topic ?s, results = res,
                        winner = verdict_winner (determineWinner res),
                        isTie = verdict_isTie (determineWinner res),
                        consensusStatement = Some (JStr (''Fallback analysis: ''
                          @ decimal (length (arguments ?s))
                          @ '' arguments analyzed using basic heuristics. Results may vary from AI analysis.'')),
                        processedAt = Date_now ?env\<rparr>"
    by blast
  then have "fst ` set res = {''user1''}
         \<and> analyzeDebate ?env ?s
             = Returns \<lparr>sessionId = ''session-1'', topic = ''Should AI replace human teachers?'',
                        results = res,
                        winner = verdict_winner (determineWinner res),
                        isTie = verdict_isTie (determineWinner res),
                        consensusStatement = Some (JStr ''Fallback analysis: 1 arguments analyzed using basic heuristics. Results may vary from AI analysis.''),
                        processedAt = 1000\<rparr>"
    by (simp add: sample_session_def sample_argument_def sample_env_def decimal_1)
  with 1 show ?thesis by blast
qed

text \<open>
  Claim C7, as amended. In the heuristic path, for a session of two arguments with
  different participant ids (the first not \<open>__proto__\<close>), the first containing
  ``studies show'' and ``however'' with more than 50 white-space-delimited words, the
  second with fewer than 50 words and no marker: the first receives clarity 8 and logic 7,
  and evidence 8 only if it contains one of the listed evidence markers, else 4; the
  second receives clarity 6, logic 5, evidence 4; the first participant's final score
  exceeds the second's by at least 0.1 and the first participant is declared winner, not
  a tie.
\<close>

theorem scenario_A_heuristic:
  assumes txt1: "str_includes (toLowerCase (arg_text a1)) ''studies show''"
                "str_includes (toLowerCase (arg_text a1)) ''however''"
                "50 < length (split_ws (arg_text a1))"
      and txt2: "length (split_ws (arg_text a2)) < 50"
                "\<not> detectStructure (arg_text a2)" "\<not> detectEvidence (arg_text a2)"
      and ids: "userId a1 \<noteq> userId a2" "userId a1 \<noteq> ''__proto__''"
      and sess: "arguments s = [a1, a2]"
      and judge: "performAIAnalysis env s = Inl e"
  shows "number_field (fallbackScore (session_topic s) a1) ''clarity'' = Some 8
     \<and> number_field (fallbackScore (session_topic s) a1) ''logic'' = Some 7
     \<and> number_field (fallbackScore (session_topic s) a1) ''evidence''
         = Some (if detectEvidence (arg_text a1) then 8 else 4)
     \<and> number_field (fallbackScore (session_topic s) a2) ''clarity'' = Some 6
     \<and> number_field (fallbackScore (session_topic s) a2) ''logic'' = Some 5
     \<and> number_field (fallbackScore (session_topic s) a2) ''evidence'' = Some 4
     \<and> (\<exists>d r1. analyzeDebate env s = Returns d
           \<and> map_of (results d) (userId a1) = Some r1
           \<and> (\<forall>r2. map_of (results d) (userId a2) = Some r2 \<longrightarrow> finalScore r2 + 1 / 10 \<le> finalScore r1)
           \<and> winner d = Some \<lparr>winner_userId = userId a1, winner_userName = result_userName r1,
                                winner_finalScore = finalScore r1\<rparr>
           \<and> \<not> isTie d)"
proof -
  let ?tpc = "session_topic s"
  have structure1: "detectStructure (arg_text a1)"
    using txt1(2) by (rule however_is_structure)
  have fields: "number_field (fallbackScore ?tpc a1) ''clarity'' = Some 8"
    "number_field (fallbackScore ?tpc a1) ''logic'' = Some 7"
    "number_field (fallbackScore ?tpc a1) ''evidence'' = Some (if detectEvidence (arg_text a1) then 8 else 4)"
    "number_field (fallbackScore ?tpc a2) ''clarity'' = Some 6"
    "number_field (fallbackScore ?tpc a2) ''logic'' = Some 5"
    "number_field (fallbackScore ?tpc a2) ''evidence'' = Some 4"
    using structure1 txt1(3) txt2 by (simp_all add: fallbackScore_fields)
  have w1: "63 / 10 \<le> weighted_sum (fallbackScore ?tpc a1)"
    using structure1 txt1(3) by (simp add: weighted_sum_fallbackScore min_def max_def)
  have w2: "weighted_sum (fallbackScore ?tpc a2) \<le> 6"
    using txt2 by (simp add: weighted_sum_fallbackScore min_def max_def)
  obtain res where res: "calculateFinalScores (Some (JObj (fallbackScores s))) = Returns res"
    and dist: "distinct (map fst res)"
    and keys: "fst ` set res = userId ` set (arguments s) - {''__proto__''}"
    and each: "\<forall>(uid, r) \<in> set res.
           is_round2 (weighted_sum (fallbackScore ?tpc
                        (last (filter (\<lambda>a. userId a = uid) (arguments s))))) (finalScore r)"
    using calculateFinalScores_fallback[of s] by blast
  have "userId a1 \<in> fst ` set res"
    using keys ids(2) sess by simp
  then obtain r1 where r1: "(userId a1, r1) \<in> set res" by auto
  have last1: "last (filter (\<lambda>a. userId a = userId a1) (arguments s)) = a1"
    using ids(1) sess by simp
  have round1: "is_round2 (weighted_sum (fallbackScore ?tpc a1)) (finalScore r1)"
    using each r1 last1 by fastforce
  have gap: "finalScore r' + 1 / 10 \<le> finalScore r1"
    if mem: "(u', r') \<in> set res" and neq: "u' \<noteq> userId a1" for u' r'
  proof -
    have "u' \<in> fst ` set res" using mem by force
    then have u': "u' = userId a2" using keys sess neq by auto
    then have "last (filter (\<lambda>a. userId a = u') (arguments s)) = a2"
      using sess by simp
    then have "is_round2 (weighted_sum (fallbackScore ?tpc a2)) (finalScore r')"
      using each mem by fastforce
    then have "finalScore r' \<le> weighted_sum (fallbackScore ?tpc a2) + 1 / 200"
      by (simp add: is_round2_def)
    moreover have "weighted_sum (fallbackScore ?tpc a1) - 1 / 200 < finalScore r1"
      using round1 by (simp add: is_round2_def)
    ultimately show ?thesis using w1 w2 by simp
  qed
  have verdict: "determineWinner res
         = \<lparr>verdict_winner = Some \<lparr>winner_userId = userId a1, winner_userName = result_userName r1,
                                    winner_finalScore = finalScore r1\<rparr>,
            verdict_isTie = False\<rparr>"
    using r1 dist gap by (rule determineWinner_margin)
  have ne: "arguments s \<noteq> []" using sess by simp
  let ?d = "\<lparr>sessionId = session_id s, topic = session_topic s, results = res,
              winner = verdict_winner (determineWinner res),
              isTie = verdict_isTie (determineWinner res),
              consensusStatement = Some (JStr (''Fallback analysis: '' @ decimal (length (arguments s))
                @ '' arguments analyzed using basic heuristics. Results may vary from AI analysis.'')),
              processedAt = Date_now env\<rparr>"
  have d: "analyzeDebate env s = Returns ?d"
    using ne judge res by (rule analyzeDebate_fallback)
  have m1: "map_of (results ?d) (userId a1) = Some r1"
    using r1 dist by simp
  have m2: "finalScore r2 + 1 / 10 \<le> finalScore r1" if "map_of (results ?d) (userId a2) = Some r2" for r2
  proof -
    from that have "(userId a2, r2) \<in> set res" by (auto dest: map_of_SomeD)
    then show ?thesis using gap ids(1) by metis
  qed
  have "\<exists>d r1. analyzeDebate env s = Returns d
           \<and> map_of (results d) (userId a1) = Some r1
           \<and> (\<forall>r2. map_of (results d) (userId a2) = Some r2 \<longrightarrow> finalScore r2 + 1 / 10 \<le> finalScore r1)
           \<and> winner d = Some \<lparr>winner_userId = userId a1, winner_userName = result_userName r1,
                                winner_finalScore = finalScore r1\<rparr>
           \<and> \<not> isTie d"
    apply (rule exI[of _ ?d])
    apply (rule exI[of _ r1])
    using d m1 m2 verdict by simp
  with fields show ?thesis by simp
qed

theorem scenario_A_heuristic_witness:
  "\<exists>d r1. analyzeDebate (sample_env (Inl (JudgeFailure ''quota exceeded'')))
              (sample_session [sample_argument ''user1'' ''Alice'' scenario_long_text,
                               sample_argument ''user2'' ''Bob'' scenario_short_text]) = Returns d
     \<and> map_of (results d) ''user1'' = Some r1
     \<and> winner d = Some \<lparr>winner_userId = ''user1'', winner_userName = result_userName r1,
                          winner_finalScore = finalScore r1\<rparr>
     \<and> \<not> isTie d"
proof -
  let ?env = "sample_env (Inl (JudgeFailure ''quota exceeded''))"
  let ?a1 = "sample_argument ''user1'' ''Alice'' scenario_long_text"
  let ?a2 = "sample_argument ''user2'' ''Bob'' scenario_short_text"
  let ?s = "sample_session [?a1, ?a2]"
  have t1: "str_includes (toLowerCase (arg_text ?a1)) ''studies show''"
    "str_includes (toLowerCase (arg_text ?a1)) ''however''"
    "50 < length (split_ws (arg_text ?a1))"
    by code_simp+
  have t2: "length (split_ws (arg_text ?a2)) < 50"
    "\<not> detectStructure (arg_text ?a2)" "\<not> detectEvidence (arg_text ?a2)"
    by code_simp+
  have ids: "userId ?a1 \<noteq> userId ?a2" "userId ?a1 \<noteq> ''__proto__''"
    by (simp_all add: sample_argument_def)
  have sess: "arguments ?s = [?a1, ?a2]" by (simp add: sample_session_def)
  have down: "performAIAnalysis ?env ?s = Inl (JudgeFailure ''quota exceeded'')"
    by (simp add: performAIAnalysis_def sample_env_def)
  have u1: "userId ?a1 = ''user1''" by (simp add: sample_argument_def)
  from scenario_A_heuristic [OF t1 t2 ids sess down]
  show ?thesis unfolding u1 by blast
qed

text \<open>
  Claim C7 as stated fails: ``studies show'' is not one of the evidence markers, and this
  argument of 57 words with ``studies show'' and ``however'' receives evidence 4, not 8.
\<close>

theorem scenario_A_counterexample:
  "str_includes (toLowerCase scenario_long_text) ''studies show''
   \<and> str_includes (toLowerCase scenario_long_text) ''however''
   \<and> 50 < length (split_ws scenario_long_text)
   \<and> number_field (fallbackScore ''Should AI replace human teachers?''
         (sample_argument ''user1'' ''Alice'' scenario_long_text)) ''evidence'' = Some 4"
  by code_simp

end
